theory Spec2Isabelle
  imports Main
begin

section \<open>JavaScript strings\<close>

text \<open>
  A JavaScript string is a sequence of UTF-16 code units; it is modelled as the list of
  their numbers (each below 65536). \<open>length\<close>, \<open>substring\<close>, \<open>charAt\<close>, \<open>slice\<close>,
  \<open>includes\<close> and \<open>===\<close> act on code units. \<open>js\<close> writes an ASCII text as such a
  string: an ASCII character is one code unit, its ASCII code.
\<close>

type_synonym code_unit = nat

type_synonym jsstring = "code_unit list"

definition js :: "string \<Rightarrow> jsstring" where
  "js s = map of_char s"

text \<open>
  The white space of \<^verbatim>\<open>String.prototype.trim\<close> and of the regular expression
  class \<^verbatim>\<open>\s\<close> is the same set of code units: the white space characters (tab,
  vertical tab, form feed, space, no-break space U+00A0, the byte order mark U+FEFF
  and the other space separators U+1680, U+2000 to U+200A, U+202F, U+205F, U+3000) and
  the line terminators (line feed, carriage return, U+2028, U+2029).
\<close>

definition isWhitespace :: "code_unit \<Rightarrow> bool" where
  "isWhitespace u =
     (u \<in> set [0x09, 0x0A, 0x0B, 0x0C, 0x0D, 0x20, 0xA0, 0x1680, 0x2028, 0x2029, 0x202F,
                0x205F, 0x3000, 0xFEFF]
      \<or> (0x2000 \<le> u \<and> u \<le> 0x200A))"

definition trim :: "jsstring \<Rightarrow> jsstring" where
  "trim s = rev (dropWhile isWhitespace (rev (dropWhile isWhitespace s)))"

text \<open>
  \<^verbatim>\<open>toLowerCase\<close> and \<^verbatim>\<open>toUpperCase\<close> follow the Unicode case mappings. On a
  string of ASCII code units they change the letters A to Z and a to z, one code unit
  each, and nothing else. On any other string their result comes from the Unicode
  tables of the JavaScript engine, which are no part of the program: the two functions
  of \<open>case_tables\<close> stand for them, and every function that converts case takes them as
  its first argument \<open>uc\<close>.
\<close>

record case_tables =
  lowerNonAscii :: "jsstring \<Rightarrow> jsstring"
  upperNonAscii :: "jsstring \<Rightarrow> jsstring"

definition isAscii :: "jsstring \<Rightarrow> bool" where
  "isAscii s = list_all (\<lambda>u. u < 0x80) s"

definition asciiLower :: "code_unit \<Rightarrow> code_unit" where
  "asciiLower u = (if 0x41 \<le> u \<and> u \<le> 0x5A then u + 0x20 else u)"

definition asciiUpper :: "code_unit \<Rightarrow> code_unit" where
  "asciiUpper u = (if 0x61 \<le> u \<and> u \<le> 0x7A then u - 0x20 else u)"

definition toLowerCase :: "case_tables \<Rightarrow> jsstring \<Rightarrow> jsstring" where
  "toLowerCase uc s = (if isAscii s then map asciiLower s else lowerNonAscii uc s)"

definition toUpperCase :: "case_tables \<Rightarrow> jsstring \<Rightarrow> jsstring" where
  "toUpperCase uc s = (if isAscii s then map asciiUpper s else upperNonAscii uc s)"

text \<open>\<^verbatim>\<open>s.includes(pat)\<close>: \<open>pat\<close> occurs in \<open>s\<close> as a contiguous run.\<close>

fun includes_str :: "jsstring \<Rightarrow> jsstring \<Rightarrow> bool" where
  "includes_str [] pat = (pat = [])"
| "includes_str (c # cs) pat = (take (length pat) (c # cs) = pat \<or> includes_str cs pat)"

text \<open>\<^verbatim>\<open>s.replace(/\s+/g, ' ')\<close>: every maximal run of white space becomes one space.\<close>

function collapseWhitespace :: "jsstring \<Rightarrow> jsstring" where
  "collapseWhitespace [] = []"
| "collapseWhitespace (c # cs) =
     (if isWhitespace c then 0x20 # collapseWhitespace (dropWhile isWhitespace cs)
      else c # collapseWhitespace cs)"
  by pat_completeness auto
termination
  by (relation "measure length") (auto intro: le_imp_less_Suc length_dropWhile_le)

text \<open>\<^verbatim>\<open>xs.slice(-n)\<close> for a positive \<open>n\<close>: the last \<open>n\<close> elements, all of them when there are fewer.\<close>

definition sliceLast :: "nat \<Rightarrow> 'a list \<Rightarrow> 'a list" where
  "sliceLast n xs = drop (length xs - n) xs"

text \<open>\<^verbatim>\<open>xs.findIndex(p)\<close>, with \<open>None\<close> for the result -1.\<close>

fun findIndex :: "('a \<Rightarrow> bool) \<Rightarrow> 'a list \<Rightarrow> nat option" where
  "findIndex p [] = None"
| "findIndex p (x # xs) =
     (if p x then Some 0 else (case findIndex p xs of None \<Rightarrow> None | Some i \<Rightarrow> Some (Suc i)))"

section \<open>Rules and the message matcher\<close>

text \<open>
  A rule's \<open>match\<close> is a string or, in the legacy form, an array of strings. The fields
  \<open>caseSensitive\<close>, \<open>priority\<close> and \<open>followup\<close> may be absent (\<open>None\<close>). The field
  \<open>contains\<close> of the stored rules is read by no function and is left out.
\<close>

datatype match_val = MStr jsstring | MArr "jsstring list"

record rule =
  match :: match_val
  rtype :: jsstring
  rvalue :: jsstring
  caseSensitive :: "bool option"
  priority :: "int option"
  followup :: "jsstring list option"

text \<open>
  The state of a \<open>MessageMatcher\<close>; \<open>listeners\<close> counts the storage listeners that
  \<open>setupStorageListener\<close> has registered.
\<close>

record matcher =
  rules :: "rule list"
  isLoaded :: bool
  listeners :: nat

definition newMatcher :: matcher where
  "newMatcher = \<lparr>rules = [], isLoaded = False, listeners = 0\<rparr>"

text \<open>
  The texts of the embedded rules hold line feeds and the bullet U+2022, written here
  as \<open>nl\<close> and \<open>bullet\<close>.
\<close>

definition nl :: jsstring where
  "nl = [0x0A]"

definition bullet :: jsstring where
  "bullet = [0x2022]"

definition getFallbackRules :: "rule list" where
  "getFallbackRules =
  [\<lparr>match = MStr (js ''What kind of questions can you help with?''),
     rtype = js ''text'',
     rvalue =
       js ''I can assist California state employees with:'' @ nl @ bullet @
       js '' Information about state employee benefits and resources'' @ nl @ bullet @
       js '' Guidance on accessing government services'' @ nl @ bullet @
       js '' General workplace policies and procedures'' @ nl @ bullet @
       js '' Technical support for common issues'' @ nl @ bullet @
       js '' Directions to relevant departments and contacts'' @ nl @ nl @
       js ''I'm designed specifically to support state employees in their daily '' @ js ''work.'',
     caseSensitive = Some False,
     priority = Some 1,
     followup = Some
       [js ''Can you help with technical issues?'',
        js ''How do I access employee benefits information?'',
        js ''What workplace policies can you explain?'',
        js ''Can you provide department contact information?'']\<rparr>,
   \<lparr>match = MStr (js ''Can you provide information on state employee resources?''),
     rtype = js ''text'',
     rvalue =
       js ''California state employees have access to comprehensive benefits '' @
       js ''including:'' @ nl @ bullet @ js '' Health insurance through CalPERS'' @ nl @ bullet @
       js '' Retirement planning and pension information'' @ nl @ bullet @
       js '' Professional development opportunities'' @ nl @ bullet @
       js '' Employee assistance programs'' @ nl @ bullet @ js '' Flexible work arrangements'' @
       nl @ nl @ js ''For detailed information, I recommend visiting the CalHR website or '' @
       js ''contacting your HR department.'',
     caseSensitive = Some False,
     priority = Some 2,
     followup = Some
       [js ''How do I contact my HR department?'',
        js ''What is CalPERS and how do I access it?'',
        js ''Can you explain flexible work arrangements?'',
        js ''What professional development is available?'']\<rparr>,
   \<lparr>match = MStr (js ''How do I access California state government services?''),
     rtype = js ''text'',
     rvalue =
       js ''California offers numerous online services for both employees and '' @
       js ''citizens:'' @ nl @ bullet @ js '' CA.gov portal for general services'' @ nl @ bullet @
       js '' Employee self-service systems'' @ nl @ bullet @
       js '' Benefits enrollment and management'' @ nl @ bullet @
       js '' Training and certification programs'' @ nl @ bullet @
       js '' Internal communication platforms'' @ nl @ nl @
       js ''Most services are accessible through your employee portal or the main '' @
       js ''CA.gov website.'',
     caseSensitive = Some False,
     priority = Some 3,
     followup = Some
       [js ''How do I access the employee portal?'',
        js ''What training programs are available?'',
        js ''Can you help with benefits enrollment?'',
        js ''Where do I find internal communications?'']\<rparr>,
   \<lparr>match = MStr (js ''What are your limitations as a state employee assistant?''),
     rtype = js ''text'',
     rvalue =
       js ''As a state employee assistant, I have several important limitations:'' @ nl @
       bullet @ js '' I cannot access personal employee records or confidential information'' @
       nl @ bullet @ js '' I cannot make official policy decisions or interpretations'' @ nl @
       bullet @ js '' I cannot process transactions or make changes to your accounts'' @ nl @
       bullet @ js '' I cannot provide legal advice or medical guidance'' @ nl @ bullet @
       js '' I can only provide general information and guidance'' @ nl @ nl @
       js ''For specific issues, please contact the appropriate department '' @ js ''directly.'',
     caseSensitive = Some False,
     priority = Some 4,
     followup = Some
       [js ''Who should I contact for HR issues?'',
        js ''How do I get official policy interpretations?'',
        js ''Where can I access my employee records?'',
        js ''What departments handle specific issues?'']\<rparr>,
   \<lparr>match = MStr (js ''Can you help with technical issues?''),
     rtype = js ''text'',
     rvalue =
       js ''For technical issues, I can provide basic troubleshooting guidance:'' @ nl @ bullet @
       js '' Check your network connection'' @ nl @ bullet @
       js '' Clear your browser cache and cookies'' @ nl @ bullet @
       js '' Restart your computer if applications are slow'' @ nl @ bullet @
       js '' Ensure you're using supported browsers (Chrome, Firefox, Edge)'' @ nl @ bullet @
       js '' Contact your local IT support for hardware issues'' @ nl @ nl @
       js ''For complex technical problems, please submit a ticket to your IT '' @ js ''help desk.'',
     caseSensitive = Some False,
     priority = Some 5,
     followup = Some
       [js ''How do I contact IT support?'',
        js ''What browsers are officially supported?'',
        js ''How do I submit an IT help desk ticket?'',
        js ''Can you help with specific software issues?'']\<rparr>,
   \<lparr>match = MStr (js ''*''),
     rtype = js ''text'',
     rvalue =
       js ''I'm sorry, I don't understand that request. I'm designed to help '' @
       js ''California state employees with specific topics. Please copy and '' @
       js ''paste one of the exact prompts from the suggestions below, or contact '' @
       js ''your administrator to add new approved prompts.'',
     caseSensitive = Some False,
     priority = Some 999,
     followup = Some
       [js ''What kind of questions can you help with?'',
        js ''Can you provide information on state employee resources?'',
        js ''How do I access California state government services?'',
        js ''Can you help with technical issues?'']\<rparr>]"

text \<open>
  The comparator of every sort is
  \<^verbatim>\<open>(a, b) => (a.priority || 999) - (b.priority || 999)\<close>.
  The operator \<^verbatim>\<open>||\<close> takes its right operand when the left one is falsy: an
  absent priority and the priority 0 both count as 999.
\<close>

definition rulePriority :: "rule \<Rightarrow> int" where
  "rulePriority r = (case priority r of None \<Rightarrow> 999 | Some p \<Rightarrow> if p = 0 then 999 else p)"

text \<open>\<^verbatim>\<open>Array.prototype.sort\<close> is stable; so is \<^const>\<open>sort_key\<close>.\<close>

definition sortRules :: "rule list \<Rightarrow> rule list" where
  "sortRules rs = sort_key rulePriority rs"

text \<open>
  What \<^verbatim>\<open>JSON.parse\<close> gives for a document, as far as \<open>loadRules\<close> looks at it:
  \<open>JNull\<close> is the value \<^verbatim>\<open>null\<close>, on which reading \<^verbatim>\<open>.rules\<close> throws;
  \<open>JDoc (Some rs)\<close> is a value whose \<^verbatim>\<open>rules\<close> is the array \<open>rs\<close>;
  \<open>JDoc None\<close> is any other value. An item of the local storage is absent
  (\<^verbatim>\<open>null\<close>, or the empty string, both falsy), or a text that does not parse, or a
  document.
\<close>

datatype json_doc = JNull | JDoc "rule list option"

datatype stored_item = NoItem | Unparseable | Json json_doc

text \<open>
  The outcomes of \<^verbatim>\<open>fetch('assets/data/replies.json')\<close>: the request is rejected,
  the status is not ok, the body does not parse, or the body is a document.
\<close>

datatype fetch_result = FetchRejected | HttpNotOk | BodyUnparseable | Body json_doc

datatype rules_source = LocalStorage | JSONFile | Fallback

definition setupStorageListener :: "matcher \<Rightarrow> matcher" where
  "setupStorageListener m = m\<lparr>listeners := Suc (listeners m)\<rparr>"

text \<open>
  \<open>loadRules\<close> returns the matcher and the sources it read, in the order it read them;
  the last one is where the rules come from. Every exception raised inside the
  \<^verbatim>\<open>try\<close> block, the parse error of the stored item among them, is caught by the one
  \<^verbatim>\<open>catch\<close> block, which loads the embedded rules.
\<close>

definition loadRules :: "matcher \<Rightarrow> stored_item \<Rightarrow> fetch_result \<Rightarrow> matcher \<times> rules_source list" where
  "loadRules m localRules fetched =
     (let loaded = (\<lambda>rs. setupStorageListener (m\<lparr>rules := sortRules rs, isLoaded := True\<rparr>));
          fromFetch = (case fetched of
               Body (JDoc (Some rs)) \<Rightarrow> (loaded rs, [LocalStorage, JSONFile])
             | _ \<Rightarrow> (loaded getFallbackRules, [LocalStorage, JSONFile, Fallback]))
      in case localRules of
           NoItem \<Rightarrow> fromFetch
         | Unparseable \<Rightarrow> (loaded getFallbackRules, [LocalStorage, Fallback])
         | Json JNull \<Rightarrow> (loaded getFallbackRules, [LocalStorage, Fallback])
         | Json (JDoc None) \<Rightarrow> fromFetch
         | Json (JDoc (Some rs)) \<Rightarrow> (loaded rs, [LocalStorage]))"

text \<open>
  A storage event carries the key that changed (\<open>None\<close> when the storage was cleared)
  and the new value. The listener replaces the rules when the key is \<open>chatRules\<close> and
  the new value parses to a document with a rules array; otherwise it leaves the
  matcher as it is (a parse error is caught and logged).
\<close>

record storage_event =
  ev_key :: "jsstring option"
  ev_newValue :: stored_item

definition storageListener :: "storage_event \<Rightarrow> matcher \<Rightarrow> matcher" where
  "storageListener e m =
     (if ev_key e = Some (js ''chatRules'') \<and> ev_newValue e \<noteq> NoItem then
        (case ev_newValue e of
           Json (JDoc (Some rs)) \<Rightarrow> m\<lparr>rules := sortRules rs\<rparr>
         | _ \<Rightarrow> m)
      else m)"

text \<open>The window runs every registered listener on the event.\<close>

definition dispatchStorageEvent :: "storage_event \<Rightarrow> matcher \<Rightarrow> matcher" where
  "dispatchStorageEvent e m = (storageListener e ^^ listeners m) m"

definition ruleCaseSensitive :: "rule \<Rightarrow> bool" where
  "ruleCaseSensitive r = (case caseSensitive r of None \<Rightarrow> False | Some b \<Rightarrow> b)"

definition matchesRule :: "case_tables \<Rightarrow> jsstring \<Rightarrow> rule \<Rightarrow> bool" where
  "matchesRule uc input r =
     (if match r = MStr (js ''*'') then True
      else
        (let processedInput = (if ruleCaseSensitive r then input else toLowerCase uc input)
         in case match r of
              MStr m \<Rightarrow>
                (let processedMatch = (if ruleCaseSensitive r then m else toLowerCase uc m)
                 in processedInput = processedMatch)
            | MArr terms \<Rightarrow>
                list_ex (\<lambda>t. processedInput = (if ruleCaseSensitive r then t else toLowerCase uc t))
                  terms))"

definition findMatch :: "case_tables \<Rightarrow> matcher \<Rightarrow> jsstring \<Rightarrow> rule option" where
  "findMatch uc m userInput =
     (if \<not> isLoaded m then None
      else
        (let input = trim userInput
         in if input = [] then None else find (matchesRule uc input) (rules m)))"

record response =
  resp_type :: jsstring
  resp_value :: jsstring
  resp_followup :: "jsstring list option"

definition getResponse :: "rule option \<Rightarrow> response" where
  "getResponse matched =
     (case matched of
        None \<Rightarrow> \<lparr>resp_type = js ''text'',
                 resp_value = js ''I didn't understand that. Please try again.'',
                 resp_followup = Some []\<rparr>
      | Some r \<Rightarrow> \<lparr>resp_type = rtype r,
                   resp_value = rvalue r,
                   resp_followup = Some (case followup r of None \<Rightarrow> [] | Some f \<Rightarrow> f)\<rparr>)"

definition processInput :: "case_tables \<Rightarrow> matcher \<Rightarrow> jsstring \<Rightarrow> response" where
  "processInput uc m userInput = getResponse (findMatch uc m userInput)"

definition getAllRules :: "matcher \<Rightarrow> rule list" where
  "getAllRules m = rules m"

section \<open>The chat manager: choosing the response to deliver\<close>

text \<open>
  \<^verbatim>\<open>rule.match.includes(kw)\<close>: on a string, \<open>kw\<close> occurs in it; on an array, \<open>kw\<close> is
  one of its elements.
\<close>

definition matchIncludes :: "rule \<Rightarrow> jsstring \<Rightarrow> bool" where
  "matchIncludes r kw = (case match r of MStr m \<Rightarrow> includes_str m kw | MArr terms \<Rightarrow> kw \<in> set terms)"

text \<open>The object that \<open>findImageAlternative\<close> returns has no \<open>followup\<close>.\<close>

definition findImageAlternative :: "case_tables \<Rightarrow> matcher \<Rightarrow> jsstring \<Rightarrow> response option" where
  "findImageAlternative uc m userMessage =
     (let allRules = getAllRules m
      in case find (\<lambda>r. rtype r = js ''image'' \<and> matchesRule uc userMessage r) allRules of
           Some r \<Rightarrow> Some \<lparr>resp_type = js ''image'', resp_value = rvalue r, resp_followup = None\<rparr>
         | None \<Rightarrow>
             (let genericImageRules =
                    filter (\<lambda>r. rtype r = js ''image'' \<and>
                                (matchIncludes r (js ''demo'') \<or> matchIncludes r (js ''screenshot'')))
                      allRules
              in case genericImageRules of
                   [] \<Rightarrow> None
                 | g # _ \<Rightarrow>
                     Some \<lparr>resp_type = js ''image'', resp_value = rvalue g, resp_followup = None\<rparr>))"

text \<open>
  \<open>handleResponse\<close> hands a message to the user interface (\<open>ui_message\<close>: the text or
  image reference, the image flag and the follow-up suggestions, set only when there
  are some) and builds the assistant message that is stored; both are returned.
\<close>

record ui_message =
  ui_content :: jsstring
  ui_isImage :: bool
  ui_followup :: "jsstring list option"

record message_obj =
  msg_type :: jsstring
  msg_content :: jsstring
  msg_responseType :: "jsstring option"
  msg_followup :: "jsstring list option"

definition handleResponse ::
  "case_tables \<Rightarrow> bool \<Rightarrow> matcher \<Rightarrow> response \<Rightarrow> jsstring \<Rightarrow> ui_message \<times> message_obj" where
  "handleResponse uc isImageMode m resp originalMessage =
     (let (finalResponse, shouldShowImage) =
            (if isImageMode \<and> resp_type resp = js ''text'' then
               (case findImageAlternative uc m originalMessage of
                  Some imageResponse \<Rightarrow> (imageResponse, True)
                | None \<Rightarrow> (resp, False))
             else if resp_type resp = js ''image'' then (resp, True)
             else (resp, False));
          messageOptions =
            \<lparr>ui_content = resp_value finalResponse,
             ui_isImage = shouldShowImage,
             ui_followup =
               (case resp_followup finalResponse of
                  Some f \<Rightarrow> if length f > 0 then Some f else None
                | None \<Rightarrow> None)\<rparr>;
          assistantMessageObj =
            \<lparr>msg_type = js ''assistant'',
             msg_content = resp_value finalResponse,
             msg_responseType = Some (if shouldShowImage then js ''image'' else js ''text''),
             msg_followup =
               Some (case resp_followup finalResponse of Some f \<Rightarrow> f | None \<Rightarrow> [])\<rparr>
      in (messageOptions, assistantMessageObj))"

section \<open>The storage manager\<close>

text \<open>
  A stored message is the message given to \<open>addMessageToChat\<close> with a generated id
  and a time stamp. The callers' messages carry neither, so the spread
  \<^verbatim>\<open>...message\<close> overwrites nothing.
\<close>

record stored_message =
  sm_id :: jsstring
  sm_timestamp :: jsstring
  sm_message :: message_obj

record chat =
  chat_id :: jsstring
  title :: jsstring
  messages :: "stored_message list"
  created :: jsstring
  updated :: jsstring
  messageCount :: nat

record storage_data =
  chats :: "chat list"
  currentChatId :: "jsstring option"
  settings_version :: jsstring
  settings_created :: jsstring

text \<open>
  The local storage holds the serialised data under the manager's key: \<open>stored\<close> is
  what \<open>getStorageData\<close> parses from it (\<open>None\<close> when the item is absent or does not
  parse). \<open>writable\<close> says whether \<^verbatim>\<open>localStorage.setItem\<close> succeeds; when it
  throws, \<open>saveStorageData\<close> catches the exception, leaves the storage as it was and
  returns false.
\<close>

record localStorage =
  stored :: "storage_data option"
  writable :: bool

definition maxChats :: nat where
  "maxChats = 50"

definition maxMessagesPerChat :: nat where
  "maxMessagesPerChat = 100"

definition getStorageData :: "localStorage \<Rightarrow> storage_data option" where
  "getStorageData ls = stored ls"

definition saveStorageData :: "localStorage \<Rightarrow> storage_data \<Rightarrow> localStorage \<times> bool" where
  "saveStorageData ls d = (if writable ls then (ls\<lparr>stored := Some d\<rparr>, True) else (ls, False))"

definition getChat :: "localStorage \<Rightarrow> jsstring \<Rightarrow> chat option" where
  "getChat ls chatId =
     (case getStorageData ls of
        None \<Rightarrow> None
      | Some d \<Rightarrow> find (\<lambda>c. chat_id c = chatId) (chats d))"

definition getAllChats :: "localStorage \<Rightarrow> chat list" where
  "getAllChats ls = (case getStorageData ls of None \<Rightarrow> [] | Some d \<Rightarrow> chats d)"

definition getCurrentChatId :: "localStorage \<Rightarrow> jsstring option" where
  "getCurrentChatId ls = (case getStorageData ls of None \<Rightarrow> None | Some d \<Rightarrow> currentChatId d)"

definition generateChatTitle :: "case_tables \<Rightarrow> jsstring \<Rightarrow> jsstring" where
  "generateChatTitle uc content =
     (let t1 = take 30 (trim content);
          t2 = collapseWhitespace t1;
          t3 = (if length content > 30 then t2 @ js ''...'' else t2);
          t4 = toUpperCase uc (take 1 t3) @ drop 1 t3
      in if t4 = [] then js ''New Chat'' else t4)"

text \<open>
  The values that \<open>addMessageToChat\<close> takes from its environment: the generated
  message id and the two readings of the clock, for the message and for the chat.
\<close>

record append_env =
  newMessageId :: jsstring
  nowMessage :: jsstring
  nowUpdated :: jsstring

text \<open>
  \<^verbatim>\<open>data.chats.find\<close> gives the first chat with the id, and the assignments change
  that element of \<open>data.chats\<close> in place. The result of \<open>saveStorageData\<close> is not
  looked at: the function returns true once the chat is found.
\<close>

definition addMessageToChat ::
  "case_tables \<Rightarrow> append_env \<Rightarrow> localStorage \<Rightarrow> jsstring \<Rightarrow> message_obj \<Rightarrow> localStorage \<times> bool" where
  "addMessageToChat uc env ls chatId message =
     (case getStorageData ls of
        None \<Rightarrow> (ls, False)
      | Some d \<Rightarrow>
          (case findIndex (\<lambda>c. chat_id c = chatId) (chats d) of
             None \<Rightarrow> (ls, False)
           | Some i \<Rightarrow>
               (let c0 = chats d ! i;
                    messageWithMeta =
                      \<lparr>sm_id = newMessageId env, sm_timestamp = nowMessage env,
                       sm_message = message\<rparr>;
                    c1 = c0\<lparr>messages := messages c0 @ [messageWithMeta]\<rparr>;
                    c2 = c1\<lparr>messageCount := length (messages c1)\<rparr>;
                    c3 = c2\<lparr>updated := nowUpdated env\<rparr>;
                    c4 = (if title c3 = js ''New Chat'' \<and> msg_type message = js ''user''
                             \<and> msg_content message \<noteq> []
                          then c3\<lparr>title := generateChatTitle uc (msg_content message)\<rparr>
                          else c3);
                    c5 = (if length (messages c4) > maxMessagesPerChat
                          then c4\<lparr>messages := sliceLast maxMessagesPerChat (messages c4),
                                  messageCount :=
                                    length (sliceLast maxMessagesPerChat (messages c4))\<rparr>
                          else c4)
                in (fst (saveStorageData ls (d\<lparr>chats := (chats d)[i := c5]\<rparr>)), True))))"

text \<open>A run of appends to one chat, each with its own environment values.\<close>

fun addMessagesToChat ::
  "case_tables \<Rightarrow> localStorage \<Rightarrow> jsstring \<Rightarrow> (append_env \<times> message_obj) list \<Rightarrow> localStorage" where
  "addMessagesToChat uc ls chatId [] = ls"
| "addMessagesToChat uc ls chatId ((env, message) # rest) =
     addMessagesToChat uc (fst (addMessageToChat uc env ls chatId message)) chatId rest"

definition deleteChat :: "localStorage \<Rightarrow> jsstring \<Rightarrow> localStorage \<times> bool" where
  "deleteChat ls chatId =
     (case getStorageData ls of
        None \<Rightarrow> (ls, False)
      | Some d \<Rightarrow>
          (case findIndex (\<lambda>c. chat_id c = chatId) (chats d) of
             None \<Rightarrow> (ls, False)
           | Some chatIndex \<Rightarrow>
               (let d1 = d\<lparr>chats := take chatIndex (chats d) @ drop (Suc chatIndex) (chats d)\<rparr>;
                    d2 = (if currentChatId d1 = Some chatId
                          then d1\<lparr>currentChatId := None\<rparr> else d1)
                in (fst (saveStorageData ls d2), True))))"


section \<open>Auxiliary definitions for the proofs\<close>

text \<open>The message that \<open>addMessageToChat\<close> stores, and the chat it writes back.\<close>

definition withMeta :: "append_env \<Rightarrow> message_obj \<Rightarrow> stored_message" where
  "withMeta env message =
     \<lparr>sm_id = newMessageId env, sm_timestamp = nowMessage env, sm_message = message\<rparr>"

definition chatAfterAppend :: "case_tables \<Rightarrow> append_env \<Rightarrow> message_obj \<Rightarrow> chat \<Rightarrow> chat" where
  "chatAfterAppend uc env message c0 =
     (let messageWithMeta =
            \<lparr>sm_id = newMessageId env, sm_timestamp = nowMessage env, sm_message = message\<rparr>;
          c1 = c0\<lparr>messages := messages c0 @ [messageWithMeta]\<rparr>;
          c2 = c1\<lparr>messageCount := length (messages c1)\<rparr>;
          c3 = c2\<lparr>updated := nowUpdated env\<rparr>;
          c4 = (if title c3 = js ''New Chat'' \<and> msg_type message = js ''user''
                   \<and> msg_content message \<noteq> []
                then c3\<lparr>title := generateChatTitle uc (msg_content message)\<rparr>
                else c3);
          c5 = (if length (messages c4) > maxMessagesPerChat
                then c4\<lparr>messages := sliceLast maxMessagesPerChat (messages c4),
                        messageCount :=
                          length (sliceLast maxMessagesPerChat (messages c4))\<rparr>
                else c4)
      in c5)"

section \<open>Notions of the specification\<close>

text \<open>
  The priority as the specification words it: the rule's own integer, and 999 for a
  rule without one.
\<close>

definition specPriority :: "rule \<Rightarrow> int" where
  "specPriority r = (case priority r of None \<Rightarrow> 999 | Some p \<Rightarrow> p)"



text \<open>
  The input equals a literal match of the rule under the rule's case normalisation
  (for a legacy array, one of its elements).
\<close>

definition normalizeFor :: "case_tables \<Rightarrow> rule \<Rightarrow> jsstring \<Rightarrow> jsstring" where
  "normalizeFor uc r s = (if ruleCaseSensitive r then s else toLowerCase uc s)"

definition equalsLiteralMatch :: "case_tables \<Rightarrow> jsstring \<Rightarrow> rule \<Rightarrow> bool" where
  "equalsLiteralMatch uc s r =
     (case match r of
        MStr mt \<Rightarrow> normalizeFor uc r s = normalizeFor uc r mt
      | MArr terms \<Rightarrow> list_ex (\<lambda>t. normalizeFor uc r s = normalizeFor uc r t) terms)"

text \<open>The match text of the rule (for a legacy array, one of its elements) contains the keyword.\<close>

definition matchTextContains :: "rule \<Rightarrow> jsstring \<Rightarrow> bool" where
  "matchTextContains r kw =
     (case match r of
        MStr mt \<Rightarrow> includes_str mt kw
      | MArr terms \<Rightarrow> list_ex (\<lambda>t. includes_str t kw) terms)"

section \<open>Sample data\<close>

definition sampleEnv :: append_env where
  "sampleEnv = \<lparr>newMessageId = js ''msg_1_abc'', nowMessage = js ''2024-01-01T00:00:01.000Z'',
                 nowUpdated = js ''2024-01-01T00:00:01.001Z''\<rparr>"

definition helloMessage :: message_obj where
  "helloMessage = \<lparr>msg_type = js ''user'', msg_content = js ''Hello there, how are you doing today?'',
                    msg_responseType = None, msg_followup = None\<rparr>"

definition oldMessage :: stored_message where
  "oldMessage = \<lparr>sm_id = js ''msg_0_old'', sm_timestamp = js ''2024-01-01T00:00:00.000Z'',
                  sm_message = \<lparr>msg_type = js ''system'', msg_content = js ''earlier'',
                                 msg_responseType = None, msg_followup = None\<rparr>\<rparr>"

definition newChat :: chat where
  "newChat = \<lparr>chat_id = js ''chat_1'', title = js ''New Chat'', messages = [],
              created = js ''2024-01-01T00:00:00.000Z'', updated = js ''2024-01-01T00:00:00.000Z'',
              messageCount = 0\<rparr>"

definition fullChat :: chat where
  "fullChat = \<lparr>chat_id = js ''chat_2'', title = js ''Full'', messages = replicate 100 oldMessage,
               created = js ''2024-01-01T00:00:00.000Z'', updated = js ''2024-01-01T00:00:00.000Z'',
               messageCount = 100\<rparr>"

definition unwritableStorage :: localStorage where
  "unwritableStorage =
     \<lparr>stored = Some \<lparr>chats = [newChat, fullChat], currentChatId = Some (js ''chat_1''),
                      settings_version = js ''2.0'',
                      settings_created = js ''2024-01-01T00:00:00.000Z''\<rparr>,
      writable = False\<rparr>"

definition sampleStorage :: localStorage where
  "sampleStorage =
     \<lparr>stored = Some \<lparr>chats = [newChat, fullChat], currentChatId = Some (js ''chat_1''),
                      settings_version = js ''2.0'', settings_created = js ''2024-01-01T00:00:00.000Z''\<rparr>,
      writable = True\<rparr>"

definition textRule :: "jsstring \<Rightarrow> jsstring \<Rightarrow> int option \<Rightarrow> rule" where
  "textRule mt v p =
     \<lparr>match = MStr mt, rtype = js ''text'', rvalue = v, caseSensitive = Some False,
      priority = p, followup = Some [js ''What kind of questions can you help with?'']\<rparr>"



definition ruleCatchAll :: rule where
  "ruleCatchAll = textRule (js ''*'') (js ''I do not understand.'') (Some 999)"

definition ruleHello :: rule where
  "ruleHello = textRule (js ''Hello'') (js ''Hi!'') (Some 1)"

definition ruleZero :: rule where
  "ruleZero = textRule (js ''hi'') (js ''first'') (Some 0)"

definition ruleFive :: rule where
  "ruleFive = textRule (js ''hi'') (js ''second'') (Some 5)"

definition loadedWith :: "rule list \<Rightarrow> matcher" where
  "loadedWith rs = fst (loadRules newMatcher (Json (JDoc (Some rs))) FetchRejected)"

definition chatRulesEvent :: "rule list \<Rightarrow> storage_event" where
  "chatRulesEvent rs = \<lparr>ev_key = Some (js ''chatRules''), ev_newValue = Json (JDoc (Some rs))\<rparr>"

definition rulePicture :: rule where
  "rulePicture =
     \<lparr>match = MStr (js ''Show me the org chart''), rtype = js ''image'',
      rvalue = js ''assets/images/org-chart.png'', caseSensitive = Some False,
      priority = Some 2, followup = None\<rparr>"


section \<open>Lists and string literals\<close>

lemma js_eq_iff [simp]: "js a = js b \<longleftrightarrow> a = b"
  by (simp add: js_def inj_map_eq_map inj_on_def)

lemma js_Nil [simp]: "js [] = []"
  by (simp add: js_def)

lemma js_Nil_iff [simp]: "js s = [] \<longleftrightarrow> s = []"
  by (simp add: js_def)

lemma Nil_js_iff [simp]: "[] = js s \<longleftrightarrow> s = []"
  by (auto simp: js_def)

lemma findIndex_None_iff: "findIndex p xs = None \<longleftrightarrow> (\<forall>x \<in> set xs. \<not> p x)"
  by (induction xs) (auto split: option.splits)

lemma findIndex_Some_D:
  "findIndex p xs = Some i \<Longrightarrow> i < length xs \<and> p (xs ! i) \<and> (\<forall>j < i. \<not> p (xs ! j))"
proof (induction xs arbitrary: i)
  case Nil
  then show ?case by simp
next
  case (Cons x xs)
  show ?case
  proof (cases "p x")
    case True
    with Cons.prems show ?thesis by simp
  next
    case False
    with Cons.prems obtain k where k: "findIndex p xs = Some k" "i = Suc k"
      by (auto split: option.splits)
    from Cons.IH [OF k(1)] False k(2) show ?thesis
      by (auto simp: nth_Cons split: nat.splits)
  qed
qed

lemma find_findIndex:
  "find p xs = (case findIndex p xs of None \<Rightarrow> None | Some i \<Rightarrow> Some (xs ! i))"
  by (induction xs) (auto split: option.splits)

lemma findIndex_update:
  "findIndex p xs = Some i \<Longrightarrow> p y \<Longrightarrow> findIndex p (xs[i := y]) = Some i"
proof (induction xs arbitrary: i)
  case Nil
  then show ?case by simp
next
  case (Cons x xs)
  then show ?case
    by (cases "p x") (auto split: option.splits)
qed

lemma findIndex_remove1:
  "findIndex p xs = Some i \<Longrightarrow> take i xs @ drop (Suc i) xs = remove1 (xs ! i) xs"
proof (induction xs arbitrary: i)
  case Nil
  then show ?case by simp
next
  case (Cons x xs)
  show ?case
  proof (cases "p x")
    case True
    with Cons.prems show ?thesis by simp
  next
    case False
    with Cons.prems obtain k where k: "findIndex p xs = Some k" "i = Suc k"
      by (auto split: option.splits)
    from findIndex_Some_D [OF k(1)] have "p (xs ! k)" by simp
    with False have "x \<noteq> xs ! k" by auto
    with Cons.IH [OF k(1)] k(2) show ?thesis by simp
  qed
qed

lemma sliceLast_short: "length xs \<le> n \<Longrightarrow> sliceLast n xs = xs"
  by (simp add: sliceLast_def)

lemma length_sliceLast: "length (sliceLast n xs) = min n (length xs)"
  by (simp add: sliceLast_def)

lemma sliceLast_append_sliceLast: "sliceLast n (sliceLast n xs @ ys) = sliceLast n (xs @ ys)"
proof (cases "length xs \<le> n")
  case True
  then show ?thesis by (simp add: sliceLast_short)
next
  case False
  then have "length xs + length ys - (length xs - n + n) + (length xs - n) =
             length xs + length ys - n"
    by arith
  with False show ?thesis by (simp add: sliceLast_def)
qed

section \<open>The storage manager: appending and deleting\<close>

lemma messages_chatAfterAppend:
  "messages (chatAfterAppend uc env message c) =
     sliceLast maxMessagesPerChat (messages c @ [withMeta env message])"
  by (simp add: chatAfterAppend_def Let_def withMeta_def sliceLast_short)

lemma messageCount_chatAfterAppend:
  "messageCount (chatAfterAppend uc env message c) = length (messages (chatAfterAppend uc env message c))"
  by (simp add: chatAfterAppend_def Let_def)

lemma title_chatAfterAppend:
  "title (chatAfterAppend uc env message c) =
     (if title c = js ''New Chat'' \<and> msg_type message = js ''user'' \<and> msg_content message \<noteq> []
      then generateChatTitle uc (msg_content message) else title c)"
  by (auto simp: chatAfterAppend_def Let_def)

lemma chat_id_chatAfterAppend: "chat_id (chatAfterAppend uc env message c) = chat_id c"
  by (simp add: chatAfterAppend_def Let_def)

lemma addMessageToChat_found:
  assumes "stored ls = Some d" and "findIndex (\<lambda>c. chat_id c = cid) (chats d) = Some i"
  shows "addMessageToChat uc env ls cid message =
           (fst (saveStorageData ls
                  (d\<lparr>chats := (chats d)[i := chatAfterAppend uc env message (chats d ! i)]\<rparr>)), True)"
  using assms by (simp add: addMessageToChat_def getStorageData_def chatAfterAppend_def Let_def)

text \<open>
  On a writable storage, an append to a stored chat returns true, keeps the storage
  writable and writes back the chat with the message appended.
\<close>

lemma getChat_after_append:
  assumes "writable ls" and "getChat ls cid = Some c"
  shows "snd (addMessageToChat uc env ls cid message)
       \<and> writable (fst (addMessageToChat uc env ls cid message))
       \<and> getChat (fst (addMessageToChat uc env ls cid message)) cid =
           Some (chatAfterAppend uc env message c)"
proof -
  from assms(2) obtain d where d: "stored ls = Some d"
    by (auto simp: getChat_def getStorageData_def split: option.splits)
  with assms(2) have f: "find (\<lambda>c. chat_id c = cid) (chats d) = Some c"
    by (simp add: getChat_def getStorageData_def)
  then obtain i where i: "findIndex (\<lambda>c. chat_id c = cid) (chats d) = Some i" "chats d ! i = c"
    by (auto simp: find_findIndex split: option.splits)
  from findIndex_Some_D [OF i(1)] i(2) have il: "i < length (chats d)" and cid: "chat_id c = cid"
    by auto
  have i': "findIndex (\<lambda>c. chat_id c = cid) ((chats d)[i := chatAfterAppend uc env message c]) = Some i"
    by (rule findIndex_update [OF i(1)]) (simp add: chat_id_chatAfterAppend cid)
  show ?thesis
    using assms(1) d i il i'
    by (simp add: addMessageToChat_found [OF d i(1)] saveStorageData_def getChat_def
        getStorageData_def find_findIndex)
qed

lemma addMessagesToChat_messages:
  assumes "writable ls" and "getChat ls cid = Some c" and "ems \<noteq> []"
  shows "\<exists>c'. getChat (addMessagesToChat uc ls cid ems) cid = Some c'
            \<and> messages c' =
                sliceLast maxMessagesPerChat (messages c @ map (\<lambda>(env, m). withMeta env m) ems)
            \<and> messageCount c' = length (messages c')"
  using assms
proof (induction ems arbitrary: ls c)
  case Nil
  then show ?case by simp
next
  case (Cons em ems)
  obtain env m where em: "em = (env, m)" by (cases em)
  let ?ls1 = "fst (addMessageToChat uc env ls cid m)"
  let ?c1 = "chatAfterAppend uc env m c"
  from getChat_after_append [OF Cons.prems(1,2), of uc env m]
  have ls1: "getChat ?ls1 cid = Some ?c1" and w1: "writable ?ls1"
    by auto
  show ?case
  proof (cases "ems = []")
    case True
    then show ?thesis
      using ls1 em by (simp add: messages_chatAfterAppend messageCount_chatAfterAppend)
  next
    case False
    from Cons.IH [OF w1 ls1 False] show ?thesis
      by (simp add: em messages_chatAfterAppend sliceLast_append_sliceLast)
  qed
qed

text \<open>
  An append to a stored chat returns true, whether the storage accepts the write or
  not; a storage that does not accept writes is left as it was by every append.
\<close>

lemma addMessageToChat_returns_true:
  assumes "getChat ls cid = Some c"
  shows "snd (addMessageToChat uc env ls cid message)"
proof -
  from assms obtain d where d: "stored ls = Some d"
    by (auto simp: getChat_def getStorageData_def split: option.splits)
  with assms obtain i where "findIndex (\<lambda>c. chat_id c = cid) (chats d) = Some i"
    by (auto simp: getChat_def getStorageData_def find_findIndex split: option.splits)
  with d show ?thesis
    by (simp add: addMessageToChat_found)
qed

lemma addMessageToChat_not_writable:
  "\<not> writable ls \<Longrightarrow> fst (addMessageToChat uc env ls cid message) = ls"
  by (simp add: addMessageToChat_def getStorageData_def saveStorageData_def Let_def
      split: option.splits)

lemma addMessagesToChat_not_writable:
  "\<not> writable ls \<Longrightarrow> addMessagesToChat uc ls cid ems = ls"
  by (induction ems arbitrary: ls) (auto simp: addMessageToChat_not_writable)

lemma deleteChat_not_writable:
  "\<not> writable ls \<Longrightarrow> fst (deleteChat ls cid) = ls"
  by (simp add: deleteChat_def getStorageData_def saveStorageData_def Let_def
      split: option.splits)

lemma getChat_sampleStorage:
  "getChat sampleStorage (js ''chat_1'') = Some newChat"
  "getChat sampleStorage (js ''chat_2'') = Some fullChat"
  "getChat sampleStorage (js ''chat_9'') = None"
  by (simp_all add: getChat_def getStorageData_def sampleStorage_def newChat_def fullChat_def)

lemma getChat_unwritableStorage:
  "getChat unwritableStorage (js ''chat_1'') = Some newChat"
  "getChat unwritableStorage (js ''chat_2'') = Some fullChat"
  by (simp_all add: getChat_def getStorageData_def unwritableStorage_def newChat_def fullChat_def)

lemma writable_samples: "writable sampleStorage" "\<not> writable unwritableStorage"
  by (simp_all add: sampleStorage_def unwritableStorage_def)

text \<open>
  C7, as the specification states it, fails when the storage does not accept the
  write: \<open>saveStorageData\<close> catches the exception and \<open>addMessageToChat\<close> does not look
  at its result. On the sample storage that rejects writes, the append to the chat
  \<open>chat_2\<close> returns true, and the chat still holds its 100 earlier messages; the
  appended message is not among them.
\<close>

theorem append_keeps_most_recent_within_cap_counterexample:
  "\<forall>uc. getChat unwritableStorage (js ''chat_2'') = Some fullChat
     \<and> snd (addMessageToChat uc sampleEnv unwritableStorage (js ''chat_2'') helloMessage)
     \<and> getChat (fst (addMessageToChat uc sampleEnv unwritableStorage (js ''chat_2'') helloMessage))
          (js ''chat_2'') = Some fullChat
     \<and> messages fullChat = replicate 100 oldMessage
     \<and> withMeta sampleEnv helloMessage \<notin> set (messages fullChat)"
  (is "\<forall>uc. ?P uc")
proof
  fix uc
  have g: "getChat unwritableStorage (js ''chat_2'') = Some fullChat"
    by (rule getChat_unwritableStorage)
  have r: "snd (addMessageToChat uc sampleEnv unwritableStorage (js ''chat_2'') helloMessage)"
    by (rule addMessageToChat_returns_true [OF g])
  have u: "fst (addMessageToChat uc sampleEnv unwritableStorage (js ''chat_2'') helloMessage)
             = unwritableStorage"
    by (rule addMessageToChat_not_writable) (rule writable_samples)
  have m: "messages fullChat = replicate 100 oldMessage"
    by (simp add: fullChat_def)
  have n: "withMeta sampleEnv helloMessage \<notin> set (messages fullChat)"
    by (simp add: m withMeta_def sampleEnv_def oldMessage_def)
  from g r u m n show "?P uc"
    by simp
qed

text \<open>
  C7, amended: every append to a stored chat returns true. When the storage accepts
  the writes, after every run of one or more appends to the chat its messages are the
  last 100 of the messages it had followed by the appended ones, in order (so the
  oldest are the ones dropped), there are at most 100 of them, and \<open>messageCount\<close> is
  their number; the chat the run starts from is arbitrary, so this holds after each
  append of a longer run. When the storage does not accept writes, the appends leave
  it as it was.
\<close>

theorem append_keeps_most_recent_within_cap:
  assumes "getChat ls cid = Some c" and "ems \<noteq> []"
  shows "snd (addMessageToChat uc env ls cid message)
       \<and> (writable ls \<longrightarrow>
            (\<exists>c'. getChat (addMessagesToChat uc ls cid ems) cid = Some c'
               \<and> messages c' =
                   sliceLast 100 (messages c @ map (\<lambda>(env, m). withMeta env m) ems)
               \<and> length (messages c') \<le> 100
               \<and> messageCount c' = length (messages c')))
       \<and> (\<not> writable ls \<longrightarrow> addMessagesToChat uc ls cid ems = ls)"
proof -
  have w: "\<exists>c'. getChat (addMessagesToChat uc ls cid ems) cid = Some c'
               \<and> messages c' =
                   sliceLast 100 (messages c @ map (\<lambda>(env, m). withMeta env m) ems)
               \<and> length (messages c') \<le> 100
               \<and> messageCount c' = length (messages c')"
    if "writable ls"
  proof -
    from addMessagesToChat_messages [OF that assms] obtain c' where
      c': "getChat (addMessagesToChat uc ls cid ems) cid = Some c'"
          "messages c' =
             sliceLast maxMessagesPerChat (messages c @ map (\<lambda>(env, m). withMeta env m) ems)"
          "messageCount c' = length (messages c')"
      by blast
    from c'(2) have "length (messages c') \<le> 100"
      by (simp add: length_sliceLast maxMessagesPerChat_def)
    with c' show ?thesis
      by (simp add: maxMessagesPerChat_def)
  qed
  from w addMessageToChat_returns_true [OF assms(1)] addMessagesToChat_not_writable
  show ?thesis
    by blast
qed

theorem append_keeps_most_recent_within_cap_witness:
  "\<forall>uc. writable sampleStorage \<and> getChat sampleStorage (js ''chat_2'') = Some fullChat
     \<and> [(sampleEnv, helloMessage)] \<noteq> []
     \<and> snd (addMessageToChat uc sampleEnv sampleStorage (js ''chat_2'') helloMessage)
     \<and> (\<exists>c'. getChat (addMessagesToChat uc sampleStorage (js ''chat_2'')
                        [(sampleEnv, helloMessage)]) (js ''chat_2'') = Some c'
            \<and> messages c' = replicate 99 oldMessage @ [withMeta sampleEnv helloMessage]
            \<and> length (messages c') \<le> 100
            \<and> messageCount c' = length (messages c'))
     \<and> \<not> writable unwritableStorage
     \<and> getChat unwritableStorage (js ''chat_2'') = Some fullChat
     \<and> addMessagesToChat uc unwritableStorage (js ''chat_2'') [(sampleEnv, helloMessage)]
         = unwritableStorage"
  (is "\<forall>uc. ?P uc")
proof
  fix uc
  have g: "getChat sampleStorage (js ''chat_2'') = Some fullChat"
    by (rule getChat_sampleStorage)
  have g': "getChat unwritableStorage (js ''chat_2'') = Some fullChat"
    by (rule getChat_unwritableStorage)
  have n: "[(sampleEnv, helloMessage)] \<noteq> []"
    by simp
  have s: "sliceLast 100 (messages fullChat @ [withMeta sampleEnv helloMessage]) =
             replicate 99 oldMessage @ [withMeta sampleEnv helloMessage]"
    by (simp add: sliceLast_def fullChat_def)
  from append_keeps_most_recent_within_cap [OF g n, of uc sampleEnv helloMessage]
    append_keeps_most_recent_within_cap [OF g' n, of uc sampleEnv helloMessage]
    s writable_samples g g'
  show "?P uc"
    by simp
qed

text \<open>
  C9. When the id names no stored chat (also when nothing is stored), \<open>addMessageToChat\<close>
  returns false and the storage is the one it was given: no chat is changed.
\<close>

theorem append_unknown_session_changes_nothing:
  "getChat ls cid = None \<Longrightarrow> addMessageToChat uc env ls cid message = (ls, False)"
proof (cases "stored ls")
  case None
  then show ?thesis
    by (simp add: addMessageToChat_def getStorageData_def)
next
  case (Some d)
  assume "getChat ls cid = None"
  with Some have "findIndex (\<lambda>c. chat_id c = cid) (chats d) = None"
    by (simp add: getChat_def getStorageData_def find_findIndex split: option.splits)
  with Some show ?thesis
    by (simp add: addMessageToChat_def getStorageData_def)
qed

theorem append_unknown_session_changes_nothing_witness:
  "\<forall>uc. getChat sampleStorage (js ''chat_9'') = None
     \<and> addMessageToChat uc sampleEnv sampleStorage (js ''chat_9'') helloMessage
         = (sampleStorage, False)"
  (is "\<forall>uc. ?P uc")
proof
  fix uc
  from append_unknown_session_changes_nothing
         [of sampleStorage "js ''chat_9''" uc sampleEnv helloMessage]
  show "?P uc"
    by (simp add: getChat_sampleStorage)
qed

lemma generateChatTitle_hello:
  "generateChatTitle uc (js ''Hello there, how are you doing today?'') =
     js ''Hello there, how are you doing...''"
  by (simp add: generateChatTitle_def trim_def isWhitespace_def toUpperCase_def isAscii_def
      asciiUpper_def js_def)

text \<open>
  C8, as the specification states it: the title would be the first 29 characters and an
  ellipsis. On the sample storage, whose chat \<open>chat_1\<close> is titled "New Chat" and has
  no message, the append of the user message gives another title. And on the sample
  storage that rejects writes, the append returns true and the title stays "New Chat".
\<close>

theorem title_of_long_first_message_counterexample:
  "\<forall>uc. title newChat = js ''New Chat'' \<and> messages newChat = []
     \<and> getChat sampleStorage (js ''chat_1'') = Some newChat
     \<and> msg_type helloMessage = js ''user''
     \<and> msg_content helloMessage = js ''Hello there, how are you doing today?''
     \<and> map_option title
           (getChat (fst (addMessageToChat uc sampleEnv sampleStorage (js ''chat_1'') helloMessage))
              (js ''chat_1''))
         \<noteq> Some (js ''Hello there, how are you doin...'')
     \<and> getChat unwritableStorage (js ''chat_1'') = Some newChat
     \<and> snd (addMessageToChat uc sampleEnv unwritableStorage (js ''chat_1'') helloMessage)
     \<and> map_option title
           (getChat (fst (addMessageToChat uc sampleEnv unwritableStorage (js ''chat_1'')
                            helloMessage)) (js ''chat_1''))
         = Some (js ''New Chat'')"
  (is "\<forall>uc. ?P uc")
proof
  fix uc
  have g: "getChat sampleStorage (js ''chat_1'') = Some newChat"
    by (rule getChat_sampleStorage)
  have g': "getChat unwritableStorage (js ''chat_1'') = Some newChat"
    by (rule getChat_unwritableStorage)
  have e: "map_option title
          (getChat (fst (addMessageToChat uc sampleEnv sampleStorage (js ''chat_1'') helloMessage))
             (js ''chat_1''))
        = Some (js ''Hello there, how are you doing...'')"
    using getChat_after_append [OF writable_samples(1) g, of uc sampleEnv helloMessage]
    by (simp add: title_chatAfterAppend generateChatTitle_hello helloMessage_def newChat_def)
  have ne: "map_option title
          (getChat (fst (addMessageToChat uc sampleEnv sampleStorage (js ''chat_1'') helloMessage))
             (js ''chat_1''))
        \<noteq> Some (js ''Hello there, how are you doin...'')"
    unfolding e by simp
  have t: "title newChat = js ''New Chat'' \<and> messages newChat = []"
    by (simp add: newChat_def)
  have m: "msg_type helloMessage = js ''user''
           \<and> msg_content helloMessage = js ''Hello there, how are you doing today?''"
    by (simp add: helloMessage_def)
  have r: "snd (addMessageToChat uc sampleEnv unwritableStorage (js ''chat_1'') helloMessage)"
    by (rule addMessageToChat_returns_true [OF g'])
  have u: "fst (addMessageToChat uc sampleEnv unwritableStorage (js ''chat_1'') helloMessage)
             = unwritableStorage"
    by (rule addMessageToChat_not_writable) (rule writable_samples)
  have k: "map_option title
           (getChat (fst (addMessageToChat uc sampleEnv unwritableStorage (js ''chat_1'')
                            helloMessage)) (js ''chat_1''))
         = Some (js ''New Chat'')"
    by (simp add: u g' newChat_def)
  from t g m ne g' r k show "?P uc"
    by blast
qed

text \<open>
  C8, amended: appending a user message with the content
  "Hello there, how are you doing today?" to a stored chat still titled "New Chat"
  returns true and, when the storage accepts the write, sets the title to
  "Hello there, how are you doing...", the first 30 characters of the content followed
  by an ellipsis; its first letter is the capital H. When the storage does not accept
  the write, it is left as it was.
\<close>

theorem title_of_long_first_message:
  assumes "getChat ls cid = Some c" and "title c = js ''New Chat''"
    and "msg_type message = js ''user''"
    and "msg_content message = js ''Hello there, how are you doing today?''"
  shows "snd (addMessageToChat uc env ls cid message)
       \<and> (writable ls \<longrightarrow>
            (\<exists>c'. getChat (fst (addMessageToChat uc env ls cid message)) cid = Some c'
               \<and> title c' = js ''Hello there, how are you doing...''
               \<and> title c' = take 30 (msg_content message) @ js ''...''))
       \<and> (\<not> writable ls \<longrightarrow> fst (addMessageToChat uc env ls cid message) = ls)"
proof -
  have w: "\<exists>c'. getChat (fst (addMessageToChat uc env ls cid message)) cid = Some c'
               \<and> title c' = js ''Hello there, how are you doing...''
               \<and> title c' = take 30 (msg_content message) @ js ''...''"
    if "writable ls"
  proof -
    have "js ''Hello there, how are you doing...'' =
            take 30 (js ''Hello there, how are you doing today?'') @ js ''...''"
      by (simp add: js_def)
    with getChat_after_append [OF that assms(1), of uc env message] assms(2,3,4)
    show ?thesis
      by (simp add: title_chatAfterAppend generateChatTitle_hello)
  qed
  from w addMessageToChat_returns_true [OF assms(1)] addMessageToChat_not_writable
  show ?thesis
    by blast
qed

theorem title_of_long_first_message_witness:
  "\<forall>uc. getChat sampleStorage (js ''chat_1'') = Some newChat
     \<and> title newChat = js ''New Chat'' \<and> msg_type helloMessage = js ''user''
     \<and> msg_content helloMessage = js ''Hello there, how are you doing today?''
     \<and> writable sampleStorage
     \<and> snd (addMessageToChat uc sampleEnv sampleStorage (js ''chat_1'') helloMessage)
     \<and> (\<exists>c'. getChat (fst (addMessageToChat uc sampleEnv sampleStorage (js ''chat_1'')
                             helloMessage)) (js ''chat_1'') = Some c'
            \<and> title c' = js ''Hello there, how are you doing...'')
     \<and> getChat unwritableStorage (js ''chat_1'') = Some newChat
     \<and> \<not> writable unwritableStorage
     \<and> fst (addMessageToChat uc sampleEnv unwritableStorage (js ''chat_1'') helloMessage)
         = unwritableStorage"
  (is "\<forall>uc. ?P uc")
proof
  fix uc
  have g: "getChat sampleStorage (js ''chat_1'') = Some newChat"
    by (rule getChat_sampleStorage)
  have g': "getChat unwritableStorage (js ''chat_1'') = Some newChat"
    by (rule getChat_unwritableStorage)
  have t: "title newChat = js ''New Chat''"
    by (simp add: newChat_def)
  have u: "msg_type helloMessage = js ''user''"
    by (simp add: helloMessage_def)
  have k: "msg_content helloMessage = js ''Hello there, how are you doing today?''"
    by (simp add: helloMessage_def)
  from title_of_long_first_message [OF g t u k, of uc sampleEnv]
    title_of_long_first_message [OF g' t u k, of uc sampleEnv]
    writable_samples g g' t u k
  show "?P uc"
    by blast
qed

text \<open>
  C10, as stated, fails when the storage does not accept the write: \<open>deleteChat\<close> does
  not look at the result of \<open>saveStorageData\<close>. On the sample storage that rejects
  writes, \<open>deleteChat\<close> of the stored id \<open>chat_1\<close> returns true, both chats are still
  stored and \<open>chat_1\<close> is still the current chat.
\<close>

theorem deleteChat_removes_exactly_that_chat_counterexample:
  "getChat unwritableStorage (js ''chat_1'') = Some newChat
   \<and> snd (deleteChat unwritableStorage (js ''chat_1''))
   \<and> getAllChats (fst (deleteChat unwritableStorage (js ''chat_1''))) = [newChat, fullChat]
   \<and> getCurrentChatId (fst (deleteChat unwritableStorage (js ''chat_1''))) = Some (js ''chat_1'')"
proof -
  have g: "getChat unwritableStorage (js ''chat_1'') = Some newChat"
    by (rule getChat_unwritableStorage)
  have u: "fst (deleteChat unwritableStorage (js ''chat_1'')) = unwritableStorage"
    by (rule deleteChat_not_writable) (rule writable_samples)
  have r: "snd (deleteChat unwritableStorage (js ''chat_1''))"
    by (simp add: deleteChat_def getStorageData_def saveStorageData_def unwritableStorage_def
        newChat_def Let_def)
  have a: "getAllChats unwritableStorage = [newChat, fullChat]"
    "getCurrentChatId unwritableStorage = Some (js ''chat_1'')"
    by (simp_all add: getAllChats_def getCurrentChatId_def getStorageData_def
        unwritableStorage_def)
  from g r a show ?thesis
    by (simp add: u)
qed

text \<open>
  C10, amended: \<open>deleteChat\<close> of the id of a stored chat \<open>c\<close> (the first chat with the
  id) returns true. When the storage accepts the write, the chats left are the chats
  before with \<open>c\<close> taken out once, all others in their order; the current chat id
  becomes null when it was the deleted id and is unchanged otherwise; and when the ids
  of the stored chats are distinct, no chat with the id is left. When the storage does
  not accept the write, it is left as it was.
\<close>

theorem deleteChat_removes_exactly_that_chat:
  assumes "getChat ls cid = Some c"
  shows "snd (deleteChat ls cid)
       \<and> (writable ls \<longrightarrow>
            getAllChats (fst (deleteChat ls cid)) = remove1 c (getAllChats ls)
            \<and> getCurrentChatId (fst (deleteChat ls cid)) =
                 (if getCurrentChatId ls = Some cid then None else getCurrentChatId ls)
            \<and> (distinct (map chat_id (getAllChats ls)) \<longrightarrow>
                 getChat (fst (deleteChat ls cid)) cid = None))
       \<and> (\<not> writable ls \<longrightarrow> fst (deleteChat ls cid) = ls)"
proof -
  from assms obtain d where d: "stored ls = Some d"
    by (auto simp: getChat_def getStorageData_def split: option.splits)
  with assms have f: "find (\<lambda>c. chat_id c = cid) (chats d) = Some c"
    by (simp add: getChat_def getStorageData_def)
  then obtain i where i: "findIndex (\<lambda>c. chat_id c = cid) (chats d) = Some i" "chats d ! i = c"
    by (auto simp: find_findIndex split: option.splits)
  from findIndex_Some_D [OF i(1)] i(2) have il: "i < length (chats d)" and cid: "chat_id c = cid"
    by auto
  have rm: "take i (chats d) @ drop (Suc i) (chats d) = remove1 c (chats d)"
    using findIndex_remove1 [OF i(1)] i(2) by simp
  have gone: "find (\<lambda>c. chat_id c = cid) (remove1 c (chats d)) = None"
    if "distinct (map chat_id (chats d))"
  proof -
    have cin: "c \<in> set (chats d)"
      using il i(2) by (auto simp: in_set_conv_nth)
    have dc: "distinct (chats d)"
      using that by (rule distinct_map [THEN iffD1, THEN conjunct1])
    have "\<forall>x \<in> set (remove1 c (chats d)). chat_id x \<noteq> cid"
    proof
      fix x
      assume "x \<in> set (remove1 c (chats d))"
      with dc have "x \<in> set (chats d)" "x \<noteq> c"
        by auto
      with that cin cid show "chat_id x \<noteq> cid"
        by (auto simp: distinct_map inj_on_def)
    qed
    then show ?thesis
      by (simp add: find_None_iff)
  qed
  have r: "snd (deleteChat ls cid)"
    using d i(1) by (simp add: deleteChat_def getStorageData_def Let_def)
  have w: "getAllChats (fst (deleteChat ls cid)) = remove1 c (getAllChats ls)
            \<and> getCurrentChatId (fst (deleteChat ls cid)) =
                 (if getCurrentChatId ls = Some cid then None else getCurrentChatId ls)
            \<and> (distinct (map chat_id (getAllChats ls)) \<longrightarrow>
                 getChat (fst (deleteChat ls cid)) cid = None)"
    if "writable ls"
    using that d i(1) rm gone
    by (auto simp: deleteChat_def getStorageData_def saveStorageData_def getAllChats_def
        getCurrentChatId_def getChat_def Let_def)
  from r w deleteChat_not_writable show ?thesis
    by blast
qed

theorem deleteChat_removes_exactly_that_chat_witness:
  "getChat sampleStorage (js ''chat_1'') = Some newChat \<and> writable sampleStorage
   \<and> distinct (map chat_id (getAllChats sampleStorage))
   \<and> getCurrentChatId sampleStorage = Some (js ''chat_1'')
   \<and> snd (deleteChat sampleStorage (js ''chat_1''))
   \<and> getAllChats (fst (deleteChat sampleStorage (js ''chat_1''))) = [fullChat]
   \<and> getCurrentChatId (fst (deleteChat sampleStorage (js ''chat_1''))) = None
   \<and> getChat (fst (deleteChat sampleStorage (js ''chat_1''))) (js ''chat_1'') = None
   \<and> getChat sampleStorage (js ''chat_2'') = Some fullChat
   \<and> getCurrentChatId (fst (deleteChat sampleStorage (js ''chat_2''))) = Some (js ''chat_1'')
   \<and> getChat unwritableStorage (js ''chat_1'') = Some newChat \<and> \<not> writable unwritableStorage
   \<and> fst (deleteChat unwritableStorage (js ''chat_1'')) = unwritableStorage"
proof -
  have g: "getChat sampleStorage (js ''chat_1'') = Some newChat"
    "getChat sampleStorage (js ''chat_2'') = Some fullChat"
    by (rule getChat_sampleStorage)+
  have g': "getChat unwritableStorage (js ''chat_1'') = Some newChat"
    by (rule getChat_unwritableStorage)
  have a: "getAllChats sampleStorage = [newChat, fullChat]"
    by (simp add: getAllChats_def getStorageData_def sampleStorage_def)
  have i: "chat_id newChat = js ''chat_1''" "chat_id fullChat = js ''chat_2''"
    by (simp_all add: newChat_def fullChat_def)
  have k: "getCurrentChatId sampleStorage = Some (js ''chat_1'')"
    by (simp add: getCurrentChatId_def getStorageData_def sampleStorage_def)
  from deleteChat_removes_exactly_that_chat [OF g(1)]
    deleteChat_removes_exactly_that_chat [OF g(2)]
    deleteChat_removes_exactly_that_chat [OF g']
    writable_samples g g' a i k
  show ?thesis
    by simp
qed


section \<open>The matcher: exact matching and the catch-all\<close>

lemma includes_str_self: "includes_str s s"
  by (cases s) simp_all

lemma loadedWith_eq: "loadedWith rs = \<lparr>rules = sortRules rs, isLoaded = True, listeners = Suc 0\<rparr>"
  by (simp add: loadedWith_def loadRules_def newMatcher_def setupStorageListener_def)






lemma sample_rule_fields:
  "ruleCaseSensitive (textRule mt v p) = False"
  "match (textRule mt v p) = MStr mt"
  "priority (textRule mt v p) = p"
  "rtype (textRule mt v p) = js ''text''"
  by (simp_all add: textRule_def ruleCaseSensitive_def)




text \<open>
  C3. In a loaded matcher whose rules hold a catch-all (match \<open>*\<close>), for an input that
  is not empty after trimming and that equals no literal match of the set under that
  rule's case normalisation, \<open>findMatch\<close> returns a rule, and the rule is the first
  catch-all of the set; it does not return null.
\<close>

theorem catch_all_coverage:
  assumes "isLoaded m" and "\<exists>w \<in> set (rules m). match w = MStr (js ''*'')"
    and "trim input \<noteq> []"
    and "\<forall>r \<in> set (rules m). match r \<noteq> MStr (js ''*'') \<longrightarrow>
           \<not> equalsLiteralMatch uc (trim input) r"
  shows "\<exists>w. findMatch uc m input = Some w \<and> match w = MStr (js ''*'') \<and> w \<in> set (rules m)
            \<and> find (\<lambda>r. match r = MStr (js ''*'')) (rules m) = Some w"
proof -
  have "matchesRule uc (trim input) r \<longleftrightarrow> match r = MStr (js ''*'')"
    if "r \<in> set (rules m)" for r
    using that assms(4)
    by (auto simp: matchesRule_def equalsLiteralMatch_def normalizeFor_def Let_def
        split: match_val.splits)
  then have "find (matchesRule uc (trim input)) (rules m) =
             find (\<lambda>r. match r = MStr (js ''*'')) (rules m)"
    by (intro find_cong) auto
  moreover from assms(2) obtain w where
    "find (\<lambda>r. match r = MStr (js ''*'')) (rules m) = Some w"
    by (cases "find (\<lambda>r. match r = MStr (js ''*'')) (rules m)") (auto simp: find_None_iff)
  ultimately show ?thesis
    using assms(1,3) by (auto simp: findMatch_def find_Some_iff)
qed

theorem catch_all_coverage_witness:
  "\<forall>uc. isLoaded (loadedWith [ruleHello, ruleCatchAll])
     \<and> ruleCatchAll \<in> set (rules (loadedWith [ruleHello, ruleCatchAll]))
     \<and> match ruleCatchAll = MStr (js ''*'')
     \<and> trim (js ''hello!'') \<noteq> []
     \<and> filter (\<lambda>r. match r \<noteq> MStr (js ''*'')) (rules (loadedWith [ruleHello, ruleCatchAll]))
         = [ruleHello]
     \<and> \<not> equalsLiteralMatch uc (trim (js ''hello!'')) ruleHello
     \<and> findMatch uc (loadedWith [ruleHello, ruleCatchAll]) (js ''hello!'') = Some ruleCatchAll"
  (is "\<forall>uc. ?P uc")
proof
  fix uc
  let ?m = "loadedWith [ruleHello, ruleCatchAll]"
  have m: "?m = \<lparr>rules = [ruleHello, ruleCatchAll], isLoaded = True, listeners = Suc 0\<rparr>"
    by (simp add: loadedWith_eq sortRules_def rulePriority_def ruleHello_def ruleCatchAll_def
        sample_rule_fields)
  have f: "match ruleHello = MStr (js ''Hello'')" "match ruleCatchAll = MStr (js ''*'')"
    "\<not> ruleCaseSensitive ruleHello"
    by (simp_all add: ruleHello_def ruleCatchAll_def sample_rule_fields)
  have t: "trim (js ''hello!'') = js ''hello!''"
    by (simp add: trim_def isWhitespace_def js_def)
  have l: "toLowerCase uc (js ''Hello'') = js ''hello''"
    "toLowerCase uc (js ''hello!'') = js ''hello!''"
    by (simp_all add: toLowerCase_def isAscii_def asciiLower_def js_def)
  have h1: "isLoaded ?m"
    by (simp add: m)
  have h2: "\<exists>w \<in> set (rules ?m). match w = MStr (js ''*'')"
    by (simp add: m f)
  have h3: "trim (js ''hello!'') \<noteq> []"
    by (simp add: t)
  have ne: "\<not> equalsLiteralMatch uc (trim (js ''hello!'')) ruleHello"
    by (simp add: f t l equalsLiteralMatch_def normalizeFor_def)
  have h4: "\<forall>r \<in> set (rules ?m). match r \<noteq> MStr (js ''*'') \<longrightarrow>
              \<not> equalsLiteralMatch uc (trim (js ''hello!'')) r"
    using ne by (simp add: m f)
  have fl: "filter (\<lambda>r. match r \<noteq> MStr (js ''*'')) (rules ?m) = [ruleHello]"
    by (simp add: m f)
  have i: "ruleCatchAll \<in> set (rules ?m)"
    by (simp add: m)
  from catch_all_coverage [OF h1 h2 h3 h4]
  have "findMatch uc ?m (js ''hello!'') = Some ruleCatchAll"
    by (simp add: m f)
  with h1 i f(2) h3 fl ne show "?P uc"
    by blast
qed


section \<open>Priority order\<close>

lemma sortRules_fallback: "sortRules getFallbackRules = getFallbackRules"
  by (simp add: sortRules_def getFallbackRules_def rulePriority_def)

lemma length_fallback: "length getFallbackRules = 6"
  by (simp add: getFallbackRules_def)

lemma sortRules_zero_five: "sortRules [ruleZero, ruleFive] = [ruleFive, ruleZero]"
  by (simp add: sortRules_def rulePriority_def ruleZero_def ruleFive_def sample_rule_fields)

lemma find_sorted_least:
  "sorted (map f xs) \<Longrightarrow> find P xs = Some r \<Longrightarrow> y \<in> set xs \<Longrightarrow> P y \<Longrightarrow> f r \<le> f y"
  by (induction xs) (auto split: if_splits)

text \<open>
  What the code does guarantee: among the rules that match, \<open>findMatch\<close> returns one
  whose comparator key \<^verbatim>\<open>priority || 999\<close> is least.
\<close>

lemma findMatch_least_rulePriority:
  assumes "isLoaded m" and "rules m = sortRules rs" and "trim input \<noteq> []"
    and "q \<in> set rs" and "matchesRule uc (trim input) q"
  shows "\<exists>r. findMatch uc m input = Some r \<and> r \<in> set rs \<and> matchesRule uc (trim input) r
            \<and> rulePriority r \<le> rulePriority q"
proof -
  from assms(4,5) have "find (matchesRule uc (trim input)) (sortRules rs) \<noteq> None"
    by (auto simp: find_None_iff sortRules_def)
  then obtain r where r: "find (matchesRule uc (trim input)) (sortRules rs) = Some r"
    by auto
  have "sorted (map rulePriority (sortRules rs))"
    by (simp add: sortRules_def)
  from find_sorted_least [OF this r, of q] assms(4,5) have "rulePriority r \<le> rulePriority q"
    by (simp add: sortRules_def)
  moreover from r have "r \<in> set (sortRules rs)" "matchesRule uc (trim input) r"
    by (auto simp: find_Some_iff)
  then have "r \<in> set rs" "matchesRule uc (trim input) r"
    by (simp_all add: sortRules_def)
  ultimately show ?thesis
    using assms(1,2,3) r by (simp add: findMatch_def)
qed

text \<open>
  C2 says that of two matching rules with distinct integer priorities the one with the
  lower number is returned. With the priorities 0 and 5 the code returns the rule with
  priority 5: the comparator reads the priority 0 as 999. (Both rules have the match
  "hi", so the statement holds whatever the case tables.)
\<close>

theorem priority_zero_loses_to_priority_five:
  "priority ruleZero = Some 0 \<and> priority ruleFive = Some 5
   \<and> matchesRule uc (trim (js ''hi'')) ruleZero \<and> matchesRule uc (trim (js ''hi'')) ruleFive
   \<and> rules (loadedWith [ruleZero, ruleFive]) = [ruleFive, ruleZero]
   \<and> findMatch uc (loadedWith [ruleZero, ruleFive]) (js ''hi'') = Some ruleFive
   \<and> ruleFive \<noteq> ruleZero"
proof -
  have t: "trim (js ''hi'') = js ''hi''"
    by (simp add: trim_def isWhitespace_def js_def)
  have m: "matchesRule uc (js ''hi'') ruleZero" "matchesRule uc (js ''hi'') ruleFive"
    by (simp_all add: matchesRule_def ruleZero_def ruleFive_def sample_rule_fields)
  have f: "findMatch uc (loadedWith [ruleZero, ruleFive]) (js ''hi'') = Some ruleFive"
    by (simp add: findMatch_def loadedWith_eq sortRules_zero_five t m)
  have n: "ruleFive \<noteq> ruleZero"
    by (simp add: ruleZero_def ruleFive_def textRule_def)
  have p: "priority ruleZero = Some 0" "priority ruleFive = Some 5"
    by (simp_all add: ruleZero_def ruleFive_def sample_rule_fields)
  have r: "rules (loadedWith [ruleZero, ruleFive]) = [ruleFive, ruleZero]"
    by (simp add: loadedWith_eq sortRules_zero_five)
  from p m r f n show ?thesis
    by (simp add: t)
qed

section \<open>Loading the rules\<close>

text \<open>
  Whatever the stored item and the outcome of the fetch, \<open>loadRules\<close> returns a matcher
  that is loaded, whose rules are in the order of the comparator key, and that has one
  more storage listener.
\<close>

lemma loadRules_ready:
  "isLoaded (fst (loadRules m item fetched))
   \<and> sorted (map rulePriority (rules (fst (loadRules m item fetched))))
   \<and> listeners (fst (loadRules m item fetched)) = Suc (listeners m)"
  by (simp add: loadRules_def setupStorageListener_def sortRules_def Let_def
      split: stored_item.splits json_doc.splits fetch_result.splits option.splits)

text \<open>
  C4 says that a stored override that is absent or malformed (unparseable among it)
  makes \<open>loadRules\<close> try the JSON file before the embedded rules. With an override that
  does not parse and a JSON file that holds good rules, the code reads the local
  storage and goes to the embedded rules at once; the same JSON file is used when the
  override is absent.
\<close>

theorem unparseable_override_skips_json_file:
  "loadRules newMatcher Unparseable (Body (JDoc (Some [ruleZero, ruleFive]))) =
     (\<lparr>rules = getFallbackRules, isLoaded = True, listeners = 1\<rparr>, [LocalStorage, Fallback])
   \<and> loadRules newMatcher NoItem (Body (JDoc (Some [ruleZero, ruleFive]))) =
     (\<lparr>rules = [ruleFive, ruleZero], isLoaded = True, listeners = 1\<rparr>, [LocalStorage, JSONFile])
   \<and> getFallbackRules \<noteq> [ruleFive, ruleZero]"
proof -
  have "length getFallbackRules \<noteq> length [ruleFive, ruleZero]"
    by (simp add: length_fallback)
  then have "getFallbackRules \<noteq> [ruleFive, ruleZero]"
    by (rule contrapos_nn) (erule arg_cong)
  then show ?thesis
    by (simp add: loadRules_def newMatcher_def setupStorageListener_def sortRules_fallback
        sortRules_zero_five)
qed

section \<open>Synchronisation between contexts\<close>

lemma storageListener_chatRules:
  "storageListener (chatRulesEvent rs) m = m\<lparr>rules := sortRules rs\<rparr>"
  by (simp add: storageListener_def chatRulesEvent_def)

lemma funpow_idem:
  assumes "\<And>x. f (f x) = f x"
  shows "0 < n \<Longrightarrow> (f ^^ n) x = f x"
proof (induction n)
  case 0
  then show ?case by simp
next
  case (Suc n)
  show ?case
  proof (cases "n = 0")
    case True
    then show ?thesis by simp
  next
    case False
    with Suc.IH have "(f ^^ n) x = f x" by simp
    then show ?thesis by (simp add: assms)
  qed
qed

text \<open>
  What the code does guarantee: in a context that has loaded its rules, a change of
  \<open>chatRules\<close> to a document with a rules array replaces the rules by the array in
  the order of the comparator key; nothing else of the matcher changes.
\<close>

lemma dispatch_chatRules:
  assumes "0 < listeners m"
  shows "dispatchStorageEvent (chatRulesEvent rs) m = m\<lparr>rules := sortRules rs\<rparr>"
  unfolding dispatchStorageEvent_def
  by (subst funpow_idem [OF _ assms]) (simp_all add: storageListener_chatRules)

text \<open>
  C5 says that after the notification the rules are the payload's rules in ascending
  order of priority, an absent priority counting as 999. With a payload whose rules have
  the priorities 0 and 5, the context ends with the rule of priority 5 before the rule
  of priority 0: the comparator reads the priority 0 as 999.
\<close>

theorem storage_sync_puts_priority_zero_last:
  "0 < listeners (loadedWith getFallbackRules)
   \<and> rules (dispatchStorageEvent (chatRulesEvent [ruleZero, ruleFive])
              (loadedWith getFallbackRules)) = [ruleFive, ruleZero]
   \<and> map specPriority [ruleFive, ruleZero] = [5, 0]
   \<and> \<not> sorted (map specPriority
         (rules (dispatchStorageEvent (chatRulesEvent [ruleZero, ruleFive])
                  (loadedWith getFallbackRules))))"
proof -
  have l: "0 < listeners (loadedWith getFallbackRules)"
    by (simp add: loadedWith_eq)
  have r: "rules (dispatchStorageEvent (chatRulesEvent [ruleZero, ruleFive])
                   (loadedWith getFallbackRules)) = [ruleFive, ruleZero]"
    by (simp add: dispatch_chatRules [OF l] sortRules_zero_five)
  have s: "map specPriority [ruleFive, ruleZero] = [5, 0]"
    by (simp add: specPriority_def ruleZero_def ruleFive_def sample_rule_fields)
  from l r s show ?thesis
    by simp
qed

section \<open>The chat manager: falling back to the text response\<close>

lemma matchIncludes_matchTextContains:
  assumes "matchIncludes q kw"
  shows "matchTextContains q kw"
proof (cases "match q")
  case (MStr mt)
  with assms show ?thesis
    by (simp add: matchIncludes_def matchTextContains_def)
next
  case (MArr terms)
  with assms have "kw \<in> set terms"
    by (simp add: matchIncludes_def)
  then have "\<exists>t \<in> set terms. includes_str t kw"
    using includes_str_self by blast
  with MArr show ?thesis
    by (simp add: matchTextContains_def list_ex_iff)
qed

lemma findImageAlternative_None:
  assumes "\<forall>q \<in> set (rules m). rtype q = js ''image'' \<longrightarrow> \<not> matchesRule uc userMessage q"
    and "\<forall>q \<in> set (rules m). rtype q = js ''image'' \<longrightarrow>
           \<not> matchTextContains q (js ''demo'') \<and> \<not> matchTextContains q (js ''screenshot'')"
  shows "findImageAlternative uc m userMessage = None"
proof -
  from assms(1)
  have a: "find (\<lambda>r. rtype r = js ''image'' \<and> matchesRule uc userMessage r) (rules m) = None"
    by (auto simp: find_None_iff)
  from assms(2) have b: "filter (\<lambda>r. rtype r = js ''image'' \<and>
           (matchIncludes r (js ''demo'') \<or> matchIncludes r (js ''screenshot''))) (rules m) = []"
    by (auto simp: filter_empty_conv dest: matchIncludes_matchTextContains)
  from a b show ?thesis
    by (simp add: findImageAlternative_def getAllRules_def)
qed

text \<open>
  C6. In image mode, when the rule matched for the user's message has the type text,
  no rule of type image matches the message as the user wrote it, and no rule of type
  image has "demo" or "screenshot" in its match text, the response delivered is the
  text rule's own: its value, shown as text, with its follow-up suggestions (none when
  the rule has none), both in the message given to the user interface and in the
  assistant message that is stored.
\<close>

theorem image_mode_falls_back_to_text:
  assumes "findMatch uc m userMessage = Some r" and "rtype r = js ''text''"
    and "\<forall>q \<in> set (rules m). rtype q = js ''image'' \<longrightarrow> \<not> matchesRule uc userMessage q"
    and "\<forall>q \<in> set (rules m). rtype q = js ''image'' \<longrightarrow>
           \<not> matchTextContains q (js ''demo'') \<and> \<not> matchTextContains q (js ''screenshot'')"
  shows "handleResponse uc True m (processInput uc m userMessage) userMessage =
           (\<lparr>ui_content = rvalue r, ui_isImage = False,
             ui_followup = (case followup r of
                              Some f \<Rightarrow> if f \<noteq> [] then Some f else None
                            | None \<Rightarrow> None)\<rparr>,
            \<lparr>msg_type = js ''assistant'', msg_content = rvalue r,
             msg_responseType = Some (js ''text''),
             msg_followup = Some (case followup r of None \<Rightarrow> [] | Some f \<Rightarrow> f)\<rparr>)"
  using assms(1,2) findImageAlternative_None [OF assms(3,4)]
  by (simp add: handleResponse_def processInput_def getResponse_def split: option.splits)

theorem image_mode_falls_back_to_text_witness:
  "\<forall>uc. findMatch uc (loadedWith [ruleHello, rulePicture, ruleCatchAll]) (js ''hello'') = Some ruleHello
   \<and> rtype ruleHello = js ''text''
   \<and> rulePicture \<in> set (rules (loadedWith [ruleHello, rulePicture, ruleCatchAll]))
   \<and> rtype rulePicture = js ''image''
   \<and> filter (\<lambda>q. rtype q = js ''image'')
         (rules (loadedWith [ruleHello, rulePicture, ruleCatchAll])) = [rulePicture]
   \<and> \<not> matchesRule uc (js ''hello'') rulePicture
   \<and> \<not> matchTextContains rulePicture (js ''demo'')
   \<and> \<not> matchTextContains rulePicture (js ''screenshot'')
   \<and> handleResponse uc True (loadedWith [ruleHello, rulePicture, ruleCatchAll])
         (processInput uc (loadedWith [ruleHello, rulePicture, ruleCatchAll]) (js ''hello'')) (js ''hello'') =
       (\<lparr>ui_content = js ''Hi!'', ui_isImage = False,
         ui_followup = Some [js ''What kind of questions can you help with?'']\<rparr>,
        \<lparr>msg_type = js ''assistant'', msg_content = js ''Hi!'', msg_responseType = Some (js ''text''),
         msg_followup = Some [js ''What kind of questions can you help with?'']\<rparr>)"
  (is "\<forall>uc. ?P uc")
proof
  fix uc
  let ?m = "loadedWith [ruleHello, rulePicture, ruleCatchAll]"
  have m: "?m = \<lparr>rules = [ruleHello, rulePicture, ruleCatchAll], isLoaded = True,
                  listeners = Suc 0\<rparr>"
    by (simp add: loadedWith_eq sortRules_def rulePriority_def ruleHello_def ruleCatchAll_def
        rulePicture_def sample_rule_fields)
  have t: "trim (js ''hello'') = js ''hello''"
    by (simp add: trim_def isWhitespace_def js_def)
  have l: "toLowerCase uc (js ''hello'') = js ''hello''" "toLowerCase uc (js ''Hello'') = js ''hello''"
    "toLowerCase uc (js ''Show me the org chart'') = js ''show me the org chart''"
    by (simp_all add: toLowerCase_def isAscii_def asciiLower_def js_def)
  have ty: "rtype ruleHello = js ''text''" "rtype rulePicture = js ''image''"
    "rtype ruleCatchAll = js ''text''"
    by (simp_all add: ruleHello_def ruleCatchAll_def rulePicture_def sample_rule_fields)
  have mh: "matchesRule uc (js ''hello'') ruleHello"
    by (simp add: matchesRule_def ruleHello_def sample_rule_fields l)
  have h1: "findMatch uc ?m (js ''hello'') = Some ruleHello"
    by (simp add: m findMatch_def t mh)
  have np: "\<not> matchesRule uc (js ''hello'') rulePicture"
    by (simp add: matchesRule_def rulePicture_def ruleCaseSensitive_def l)
  have nk: "\<not> matchTextContains rulePicture (js ''demo'')"
    "\<not> matchTextContains rulePicture (js ''screenshot'')"
    by (simp_all add: matchTextContains_def rulePicture_def js_def)
  have h3: "\<forall>q \<in> set (rules ?m). rtype q = js ''image'' \<longrightarrow> \<not> matchesRule uc (js ''hello'') q"
    by (simp add: m ty np)
  have h4: "\<forall>q \<in> set (rules ?m). rtype q = js ''image'' \<longrightarrow>
              \<not> matchTextContains q (js ''demo'') \<and> \<not> matchTextContains q (js ''screenshot'')"
    by (simp add: m ty nk)
  have v: "rvalue ruleHello = js ''Hi!''"
    "followup ruleHello = Some [js ''What kind of questions can you help with?'']"
    by (simp_all add: ruleHello_def textRule_def)
  have i: "rulePicture \<in> set (rules ?m)"
    by (simp add: m)
  from image_mode_falls_back_to_text [OF h1 ty(1) h3 h4]
  have "handleResponse uc True ?m (processInput uc ?m (js ''hello'')) (js ''hello'') =
       (\<lparr>ui_content = js ''Hi!'', ui_isImage = False,
         ui_followup = Some [js ''What kind of questions can you help with?'']\<rparr>,
        \<lparr>msg_type = js ''assistant'', msg_content = js ''Hi!'', msg_responseType = Some (js ''text''),
         msg_followup = Some [js ''What kind of questions can you help with?'']\<rparr>)"
    by (simp add: v)
  moreover have "filter (\<lambda>q. rtype q = js ''image'') (rules ?m) = [rulePicture]"
    by (simp add: m ty)
  ultimately show "?P uc"
    using h1 ty(1,2) i np nk by blast
qed



end
